theory Spec2Isabelle
  imports Main
begin

section \<open>Strings of the platform\<close>

text \<open>
  JavaScript strings are modelled as \<^typ>\<open>string\<close>: a list of 8-bit characters, enough for
  the protocol text of this program (ASCII). The three string methods the code calls are
  written out: \<^verbatim>\<open>split\<close> with a one-character separator, \<^verbatim>\<open>startsWith\<close> and
  \<^verbatim>\<open>trim\<close>; \<^verbatim>\<open>slice(6)\<close> is \<^term>\<open>drop 6\<close>.
\<close>

abbreviation newline :: char where
  "newline \<equiv> CHR 0x0A"

text \<open>\<^verbatim>\<open>s.split(sep)\<close>: the pieces between the separators; the empty string gives one
  empty piece and a trailing separator gives a last empty piece.\<close>

fun split :: "char \<Rightarrow> string \<Rightarrow> string list" where
  "split sep [] = [[]]"
| "split sep (c # cs) =
     (if c = sep then [] # split sep cs
      else (case split sep cs of
              [] \<Rightarrow> [[c]]
            | piece # pieces \<Rightarrow> (c # piece) # pieces))"

definition startsWith :: "string \<Rightarrow> string \<Rightarrow> bool" where
  "startsWith s p = (take (length p) s = p)"

text \<open>White space and line terminators that \<^verbatim>\<open>trim\<close> removes, among 8-bit characters:
  tab, line feed, vertical tab, form feed, carriage return, space, no-break space.\<close>

definition isWhiteSpace :: "char \<Rightarrow> bool" where
  "isWhiteSpace c = (c \<in> set [CHR 0x09, CHR 0x0A, CHR 0x0B, CHR 0x0C, CHR 0x0D, CHR 0x20, CHR 0xA0])"

definition trim :: "string \<Rightarrow> string" where
  "trim s = rev (dropWhile isWhiteSpace (rev (dropWhile isWhiteSpace s)))"

text \<open>A number in a template literal: its decimal digits.\<close>

definition digitChar :: "nat \<Rightarrow> char" where
  "digitChar d = ''0123456789'' ! (d mod 10)"

fun digits10 :: "nat \<Rightarrow> string" where
  "digits10 n =
     (if n < 10 then [digitChar n]
      else digits10 (n div 10) @ [digitChar (n mod 10)])"

declare digits10.simps [simp del]

section \<open>JSON values and \<^verbatim>\<open>JSON.parse\<close>\<close>

text \<open>
  A JSON value as the platform hands it to the program. A number is a double; it is
  given by the text the platform prints for it (\<^verbatim>\<open>1\<close> for the number written
  \<^verbatim>\<open>1.0\<close>, \<^verbatim>\<open>0\<close> for one that rounds to zero, \<^verbatim>\<open>12345678901234567000\<close> for
  the one written \<^verbatim>\<open>12345678901234567890\<close>), which determines the double up to the
  sign of zero. An object is the list of its members in the order written.
\<close>

datatype json =
    JNull
  | JBool bool
  | JNum string
  | JStr string
  | JArr "json list"
  | JObj "(string \<times> json) list"

text \<open>
  \<^verbatim>\<open>JSON.parse\<close> is a built-in, not code of this repository. The streaming consumer below
  takes the parser as a parameter \<open>parse\<close> (\<^term>\<open>None\<close> when it throws SyntaxError), so
  what is proved of it holds for any parser. To run the consumer on concrete input,
  \<open>JSON_parse\<close> reads the JSON grammar (ECMA-404) by recursive descent. The fuel bounds
  the nesting and is the length of the text, which no text exhausts. Escapes
  \<^verbatim>\<open>\uXXXX\<close> above \<^verbatim>\<open>00FF\<close> denote characters outside the 8-bit model and are
  not accepted here. A number literal is kept as written, which is the printed text of
  its number for the literals it is run on below (\<^verbatim>\<open>1\<close> and \<^verbatim>\<open>2\<close>); the
  rounding of other literals to their doubles is not computed.
\<close>

definition isJsonSpace :: "char \<Rightarrow> bool" where
  "isJsonSpace c = (c \<in> set [CHR 0x20, CHR 0x09, CHR 0x0A, CHR 0x0D])"

definition skipSpace :: "string \<Rightarrow> string" where
  "skipSpace s = dropWhile isJsonSpace s"

definition isDigit :: "char \<Rightarrow> bool" where
  "isDigit c = ((48::nat) \<le> of_char c \<and> of_char c \<le> (57::nat))"

definition hexValue :: "char \<Rightarrow> nat option" where
  "hexValue c =
     (let n = (of_char c :: nat) in
      if 48 \<le> n \<and> n \<le> 57 then Some (n - 48)
      else if 65 \<le> n \<and> n \<le> 70 then Some (n - 55)
      else if 97 \<le> n \<and> n \<le> 102 then Some (n - 87)
      else None)"

definition unescape :: "char \<Rightarrow> char option" where
  "unescape e =
     (if e = CHR 0x22 then Some (CHR 0x22)
      else if e = CHR 0x5C then Some (CHR 0x5C)
      else if e = CHR ''/'' then Some (CHR ''/'')
      else if e = CHR ''b'' then Some (CHR 0x08)
      else if e = CHR ''f'' then Some (CHR 0x0C)
      else if e = CHR ''n'' then Some (CHR 0x0A)
      else if e = CHR ''r'' then Some (CHR 0x0D)
      else if e = CHR ''t'' then Some (CHR 0x09)
      else None)"

text \<open>The characters of a string literal after its opening quote, up to the closing one.\<close>

fun parseString :: "string \<Rightarrow> (string \<times> string) option" where
  "parseString [] = None"
| "parseString (c # cs) =
     (if c = CHR 0x22 then Some ([], cs)
      else if c = CHR 0x5C then
        (case cs of
           [] \<Rightarrow> None
         | e # es \<Rightarrow>
             if e = CHR ''u'' then
               (case es of
                  h1 # h2 # h3 # h4 # more \<Rightarrow>
                    (case (hexValue h1, hexValue h2, hexValue h3, hexValue h4) of
                       (Some a, Some b, Some c', Some d) \<Rightarrow>
                         if a = 0 \<and> b = 0 then
                           (case parseString more of
                              None \<Rightarrow> None
                            | Some (t, rest) \<Rightarrow> Some (char_of (16 * c' + d) # t, rest))
                         else None
                     | _ \<Rightarrow> None)
                | _ \<Rightarrow> None)
             else
               (case unescape e of
                  None \<Rightarrow> None
                | Some ch \<Rightarrow>
                    (case parseString es of
                       None \<Rightarrow> None
                     | Some (t, rest) \<Rightarrow> Some (ch # t, rest))))
      else if of_char c < (32::nat) then None
      else (case parseString cs of
              None \<Rightarrow> None
            | Some (t, rest) \<Rightarrow> Some (c # t, rest)))"

text \<open>A number literal: sign, integer part without leading zero, fraction, exponent.\<close>

definition parseDigits :: "string \<Rightarrow> (string \<times> string) option" where
  "parseDigits s =
     (let ds = takeWhile isDigit s in
      if ds = [] then None else Some (ds, dropWhile isDigit s))"

definition parseInt :: "string \<Rightarrow> (string \<times> string) option" where
  "parseInt s =
     (case s of
        [] \<Rightarrow> None
      | c # cs \<Rightarrow> if c = CHR ''0'' then Some ([c], cs) else parseDigits s)"

definition parseFraction :: "string \<Rightarrow> (string \<times> string) option" where
  "parseFraction s =
     (case s of
        c # cs \<Rightarrow>
          if c = CHR ''.'' then
            (case parseDigits cs of None \<Rightarrow> None | Some (ds, rest) \<Rightarrow> Some (c # ds, rest))
          else Some ([], s)
      | [] \<Rightarrow> Some ([], s))"

definition parseExponent :: "string \<Rightarrow> (string \<times> string) option" where
  "parseExponent s =
     (case s of
        c # cs \<Rightarrow>
          if c = CHR ''e'' \<or> c = CHR ''E'' then
            (case cs of
               g # gs \<Rightarrow>
                 if g = CHR ''+'' \<or> g = CHR ''-'' then
                   (case parseDigits gs of
                      None \<Rightarrow> None
                    | Some (ds, rest) \<Rightarrow> Some (c # g # ds, rest))
                 else
                   (case parseDigits cs of
                      None \<Rightarrow> None
                    | Some (ds, rest) \<Rightarrow> Some (c # ds, rest))
             | [] \<Rightarrow> None)
          else Some ([], s)
      | [] \<Rightarrow> Some ([], s))"

definition parseNumber :: "string \<Rightarrow> (string \<times> string) option" where
  "parseNumber s =
     (let (sign, s1) = (case s of
                          c # cs \<Rightarrow> if c = CHR ''-'' then ([c], cs) else ([], s)
                        | [] \<Rightarrow> ([], s))
      in case parseInt s1 of
           None \<Rightarrow> None
         | Some (ip, s2) \<Rightarrow>
             (case parseFraction s2 of
                None \<Rightarrow> None
              | Some (fp, s3) \<Rightarrow>
                  (case parseExponent s3 of
                     None \<Rightarrow> None
                   | Some (ep, s4) \<Rightarrow> Some (sign @ ip @ fp @ ep, s4))))"

fun parseValue :: "nat \<Rightarrow> string \<Rightarrow> (json \<times> string) option"
  and parseElements :: "nat \<Rightarrow> string \<Rightarrow> (json list \<times> string) option"
  and parseMembers :: "nat \<Rightarrow> string \<Rightarrow> ((string \<times> json) list \<times> string) option"
where
  "parseValue 0 s = None"
| "parseValue (Suc n) s =
     (case skipSpace s of
        [] \<Rightarrow> None
      | c # cs \<Rightarrow>
          if c = CHR ''{'' then
            (case skipSpace cs of
               [] \<Rightarrow> None
             | d # ds \<Rightarrow>
                 if d = CHR ''}'' then Some (JObj [], ds)
                 else (case parseMembers n (d # ds) of
                         None \<Rightarrow> None
                       | Some (ms, rest) \<Rightarrow> Some (JObj ms, rest)))
          else if c = CHR ''['' then
            (case skipSpace cs of
               [] \<Rightarrow> None
             | d # ds \<Rightarrow>
                 if d = CHR '']'' then Some (JArr [], ds)
                 else (case parseElements n (d # ds) of
                         None \<Rightarrow> None
                       | Some (vs, rest) \<Rightarrow> Some (JArr vs, rest)))
          else if c = CHR 0x22 then
            (case parseString cs of
               None \<Rightarrow> None
             | Some (t, rest) \<Rightarrow> Some (JStr t, rest))
          else if startsWith (c # cs) ''true'' then Some (JBool True, drop 4 (c # cs))
          else if startsWith (c # cs) ''false'' then Some (JBool False, drop 5 (c # cs))
          else if startsWith (c # cs) ''null'' then Some (JNull, drop 4 (c # cs))
          else (case parseNumber (c # cs) of
                  None \<Rightarrow> None
                | Some (lit, rest) \<Rightarrow> Some (JNum lit, rest)))"
| "parseElements 0 s = None"
| "parseElements (Suc n) s =
     (case parseValue n s of
        None \<Rightarrow> None
      | Some (v, rest) \<Rightarrow>
          (case skipSpace rest of
             [] \<Rightarrow> None
           | c # cs \<Rightarrow>
               if c = CHR '','' then
                 (case parseElements n cs of
                    None \<Rightarrow> None
                  | Some (vs, rest') \<Rightarrow> Some (v # vs, rest'))
               else if c = CHR '']'' then Some ([v], cs)
               else None))"
| "parseMembers 0 s = None"
| "parseMembers (Suc n) s =
     (case skipSpace s of
        [] \<Rightarrow> None
      | q # qs \<Rightarrow>
          if q = CHR 0x22 then
            (case parseString qs of
               None \<Rightarrow> None
             | Some (k, rest) \<Rightarrow>
                 (case skipSpace rest of
                    [] \<Rightarrow> None
                  | c # cs \<Rightarrow>
                      if c = CHR '':'' then
                        (case parseValue n cs of
                           None \<Rightarrow> None
                         | Some (v, rest') \<Rightarrow>
                             (case skipSpace rest' of
                                [] \<Rightarrow> None
                              | e # es \<Rightarrow>
                                  if e = CHR '','' then
                                    (case parseMembers n es of
                                       None \<Rightarrow> None
                                     | Some (ms, rest'') \<Rightarrow> Some ((k, v) # ms, rest''))
                                  else if e = CHR ''}'' then Some ([(k, v)], es)
                                  else None))
                      else None))
          else None)"

definition JSON_parse :: "string \<Rightarrow> json option" where
  "JSON_parse text =
     (case parseValue (Suc (length text)) text of
        None \<Rightarrow> None
      | Some (v, rest) \<Rightarrow> if skipSpace rest = [] then Some v else None)"

section \<open>The streaming consumer (services/api.js, streamMessage)\<close>

text \<open>
  A value thrown or a rejection reason: \<^verbatim>\<open>new Error(message)\<close>, or one of the
  platform's own errors.
\<close>

datatype js_error = Error string | TypeError | SyntaxError

text \<open>
  One result of \<^verbatim>\<open>reader.read()\<close>: \<open>Value text\<close> has \<^verbatim>\<open>done\<close> false, and
  \<open>text\<close> is what \<^verbatim>\<open>decoder.decode(value, {stream: true})\<close> returns for the bytes of
  that read; \<open>Done\<close> has \<^verbatim>\<open>done\<close> true; \<open>ReadError e\<close> is a read that rejects. The
  body of a response is the list of the results of its successive reads; when the list
  ends before \<open>Done\<close>, the next read never settles.
\<close>

datatype read_result = Value string | Done | ReadError js_error

record response =
  ok :: bool
  status_http :: nat
  body :: "read_result list option"
  json_body :: "json option"

datatype fetch_result = Rejected js_error | Fulfilled response

text \<open>The calls made on the three callbacks, in the order they are made. The callbacks
  are taken to be supplied and to return normally.\<close>

datatype callback = OnChunk json | OnComplete | OnError js_error

datatype outcome = Returned | Thrown js_error | Pending

text \<open>
  The \<^verbatim>\<open>for (const line of lines)\<close> loop of one read: the calls it makes, and whether
  it left \<^verbatim>\<open>processStream\<close> by the \<^verbatim>\<open>return\<close> at the sentinel. The \<^verbatim>\<open>catch\<close>
  around \<^verbatim>\<open>JSON.parse\<close> drops the line when the parser throws.
\<close>

fun processLines :: "(string \<Rightarrow> json option) \<Rightarrow> string list \<Rightarrow> callback list \<times> bool" where
  "processLines parse [] = ([], False)"
| "processLines parse (line # lines) =
     (if startsWith line ''data: '' then
        (let data = drop 6 line in
         if data = ''[DONE]'' then ([OnComplete], True)
         else (case parse data of
                 Some parsed \<Rightarrow>
                   (case processLines parse lines of
                      (calls, returned) \<Rightarrow> (OnChunk parsed # calls, returned))
               | None \<Rightarrow> processLines parse lines))
      else processLines parse lines)"

text \<open>The \<^verbatim>\<open>while (true)\<close> loop over the reads.\<close>

fun processStream :: "(string \<Rightarrow> json option) \<Rightarrow> read_result list \<Rightarrow> callback list \<times> outcome" where
  "processStream parse [] = ([], Pending)"
| "processStream parse (Done # reads) = ([OnComplete], Returned)"
| "processStream parse (ReadError e # reads) = ([], Thrown e)"
| "processStream parse (Value chunk # reads) =
     (case processLines parse (split newline chunk) of
        (calls, returned) \<Rightarrow>
          if returned then (calls, Returned)
          else (case processStream parse reads of
                  (calls', out) \<Rightarrow> (calls @ calls', out)))"

text \<open>
  \<^verbatim>\<open>fetch(...).then(response => {...; processStream().catch(onError)}).catch(onError)\<close>.
  A rejected fetch skips the \<^verbatim>\<open>then\<close> and reaches the outer \<^verbatim>\<open>catch\<close>;
  \<^verbatim>\<open>response.body.getReader()\<close> on a response without body throws there too. The
  \<^verbatim>\<open>then\<close> callback reads neither \<^verbatim>\<open>response.ok\<close> nor \<^verbatim>\<open>response.status\<close>.
\<close>

definition streamMessage :: "(string \<Rightarrow> json option) \<Rightarrow> fetch_result \<Rightarrow> callback list" where
  "streamMessage parse fetched =
     (case fetched of
        Rejected e \<Rightarrow> [OnError e]
      | Fulfilled response \<Rightarrow>
          (case body response of
             None \<Rightarrow> [OnError TypeError]
           | Some reads \<Rightarrow>
               (case processStream parse reads of
                  (calls, Thrown e) \<Rightarrow> calls @ [OnError e]
                | (calls, _) \<Rightarrow> calls)))"

text \<open>The frame carrying a payload: the event marker, the payload, a line feed.\<close>

definition frame :: "string \<Rightarrow> string" where
  "frame payload = ''data: '' @ payload @ [newline]"

text \<open>
  What the consumer delivers, said without the loops: the lines of each read taken on its
  own, up to the first sentinel line, and of these the payloads that parse, in order.
\<close>

definition linesPerRead :: "string list \<Rightarrow> string list" where
  "linesPerRead texts = concat (map (split newline) texts)"

definition payloadOf :: "(string \<Rightarrow> json option) \<Rightarrow> string \<Rightarrow> json option" where
  "payloadOf parse line = (if startsWith line ''data: '' then parse (drop 6 line) else None)"

definition deliveredChunks :: "(string \<Rightarrow> json option) \<Rightarrow> string list \<Rightarrow> json list" where
  "deliveredChunks parse lines =
     List.map_filter (payloadOf parse) (takeWhile (\<lambda>line. line \<noteq> ''data: [DONE]'') lines)"

text \<open>The texts of the reads up to the first one that is not a value, and the call that
  the end of the reads makes when no sentinel came before: \<^verbatim>\<open>onComplete\<close> at the end of
  the stream, \<^verbatim>\<open>onError\<close> for a read that rejects, none while a read is awaited.\<close>

fun leadingTexts :: "read_result list \<Rightarrow> string list" where
  "leadingTexts (Value text # reads) = text # leadingTexts reads"
| "leadingTexts reads = []"

fun closing :: "read_result list \<Rightarrow> callback list" where
  "closing [] = []"
| "closing (Value text # reads) = closing reads"
| "closing (Done # reads) = [OnComplete]"
| "closing (ReadError e # reads) = [OnError e]"

section \<open>The transport client (services/api.js, request and uploadDocuments)\<close>

text \<open>
  \<^verbatim>\<open>response.json()\<close> is the field \<open>json_body\<close>: the value the body parses to, or
  \<^term>\<open>None\<close> when the promise rejects. \<^verbatim>\<open>await response.json().catch(() => ({}))\<close> puts
  the empty object in place of a rejection.
\<close>

definition errorBody :: "response \<Rightarrow> json" where
  "errorBody r = (case json_body r of None \<Rightarrow> JObj [] | Some v \<Rightarrow> v)"

text \<open>
  \<^verbatim>\<open>error.detail\<close>: reading a property of \<^verbatim>\<open>null\<close> throws TypeError; an object gives
  its member (the last one of that name) or \<^verbatim>\<open>undefined\<close>, here \<^term>\<open>None\<close>; a
  string, number, boolean or array has no such property.
\<close>

definition getDetail :: "json \<Rightarrow> js_error + json option" where
  "getDetail v =
     (case v of
        JNull \<Rightarrow> Inl TypeError
      | JObj members \<Rightarrow> Inr (map_of (rev members) ''detail'')
      | _ \<Rightarrow> Inr None)"

text \<open>
  The operand of \<^verbatim>\<open>||\<close> is taken when it is truthy: not \<^verbatim>\<open>null\<close>, \<^verbatim>\<open>false\<close>,
  the empty string, zero or NaN. The printed text of a number is that of zero when the
  digits before its exponent are all zeros.
\<close>

definition isZeroLiteral :: "string \<Rightarrow> bool" where
  "isZeroLiteral lit =
     list_all (\<lambda>c. c = CHR ''-'' \<or> c = CHR ''0'' \<or> c = CHR ''.'')
       (takeWhile (\<lambda>c. c \<noteq> CHR ''e'' \<and> c \<noteq> CHR ''E'') lit)"

fun truthy :: "json \<Rightarrow> bool" where
  "truthy JNull = False"
| "truthy (JBool b) = b"
| "truthy (JNum printed) = (\<not> isZeroLiteral printed \<and> printed \<noteq> ''NaN'')"
| "truthy (JStr s) = (s \<noteq> [])"
| "truthy (JArr vs) = True"
| "truthy (JObj ms) = True"

text \<open>
  \<^verbatim>\<open>new Error(x)\<close> takes the string of \<open>x\<close> as the message. A string is itself and a
  number is its printed text. An array is its elements joined by commas, with
  \<^verbatim>\<open>null\<close> as the empty string. An object is \<^verbatim>\<open>[object Object]\<close>, unless it has a
  member \<^verbatim>\<open>toString\<close> of its own: a JSON value is never callable, the conversion finds
  no method that gives a primitive, and TypeError is thrown (by \<^verbatim>\<open>new Error\<close>, hence
  by the method).
\<close>

fun joinWith :: "string \<Rightarrow> (js_error + string) list \<Rightarrow> js_error + string" where
  "joinWith sep [] = Inr []"
| "joinWith sep [x] = x"
| "joinWith sep (x # y # ys) =
     (case x of
        Inl e \<Rightarrow> Inl e
      | Inr s \<Rightarrow> (case joinWith sep (y # ys) of
                    Inl e \<Rightarrow> Inl e
                  | Inr t \<Rightarrow> Inr (s @ sep @ t)))"

fun ToString :: "json \<Rightarrow> js_error + string" where
  "ToString JNull = Inr ''null''"
| "ToString (JBool b) = Inr (if b then ''true'' else ''false'')"
| "ToString (JNum printed) = Inr printed"
| "ToString (JStr s) = Inr s"
| "ToString (JArr vs) = joinWith '','' (map (\<lambda>v. if v = JNull then Inr [] else ToString v) vs)"
| "ToString (JObj ms) =
     (if ''toString'' \<in> set (map fst ms) then Inl TypeError else Inr ''[object Object]'')"

text \<open>\<^verbatim>\<open>throw new Error(error.detail || fallback)\<close> on a response that is not ok.\<close>

definition failure :: "string \<Rightarrow> response \<Rightarrow> js_error" where
  "failure fallback r =
     (case getDetail (errorBody r) of
        Inl e \<Rightarrow> e
      | Inr None \<Rightarrow> Error fallback
      | Inr (Some detail) \<Rightarrow>
          if truthy detail then
            (case ToString detail of Inl e \<Rightarrow> e | Inr message \<Rightarrow> Error message)
          else Error fallback)"

text \<open>
  \<^verbatim>\<open>request\<close>: the \<^verbatim>\<open>catch\<close> logs and rethrows, so the caller sees the same error.
  On an ok response the result is that of \<^verbatim>\<open>response.json()\<close>.
\<close>

definition request :: "fetch_result \<Rightarrow> js_error + json" where
  "request fetched =
     (case fetched of
        Rejected e \<Rightarrow> Inl e
      | Fulfilled r \<Rightarrow>
          if \<not> ok r then Inl (failure (''HTTP error '' @ digits10 (status_http r)) r)
          else (case json_body r of None \<Rightarrow> Inl SyntaxError | Some v \<Rightarrow> Inr v))"

definition uploadDocuments :: "fetch_result \<Rightarrow> js_error + json" where
  "uploadDocuments fetched =
     (case fetched of
        Rejected e \<Rightarrow> Inl e
      | Fulfilled r \<Rightarrow>
          if \<not> ok r then Inl (failure ''Upload failed'' r)
          else (case json_body r of None \<Rightarrow> Inl SyntaxError | Some v \<Rightarrow> Inr v))"

text \<open>The \<^verbatim>\<open>detail\<close> field of the JSON body of a response, when the body parses to an
  object and the field is present.\<close>

definition detailField :: "response \<Rightarrow> json option" where
  "detailField r =
     (case json_body r of
        Some (JObj members) \<Rightarrow> map_of (rev members) ''detail''
      | _ \<Rightarrow> None)"

section \<open>The orchestrators (App component)\<close>

record document =
  id_doc :: string
  filename :: string
  size_doc :: nat
  status :: string

record dropped_file =
  name :: string
  size_file :: nat

record uploaded_document =
  filename_up :: string
  document_id_up :: string

record upload_response =
  job_id :: string
  documents_up :: "uploaded_document list"

record document_status =
  document_id :: string
  status_ds :: string

record job_status =
  status_job :: string
  documents_job :: "document_status list"

record reference =
  document_name :: string
  page_number :: nat

record message =
  role :: string
  content :: string
  references :: "reference list option"

record chat_response =
  answer :: string
  references_resp :: "reference list"

text \<open>The state held by \<^verbatim>\<open>useState\<close>; \<^verbatim>\<open>null\<close> is \<^term>\<open>None\<close>.\<close>

record app =
  sessionId :: "string option"
  documents :: "document list"
  messages :: "message list"
  inputMessage :: string
  isLoading :: bool
  processingStatus :: "job_status option"
  error :: "string option"

text \<open>The initial values given to \<^verbatim>\<open>useState\<close>.\<close>

definition initialState :: app where
  "initialState = \<lparr>sessionId = None, documents = [], messages = [], inputMessage = [],
     isLoading = False, processingStatus = None, error = None\<rparr>"

subsection \<open>onDrop\<close>

text \<open>The temporary id \<^verbatim>\<open>`temp - ${Date.now()} -${file.name} `\<close>.\<close>

definition tempId :: "nat \<Rightarrow> string \<Rightarrow> string" where
  "tempId now fname = ''temp - '' @ digits10 now @ '' -'' @ fname @ '' ''"

text \<open>\<open>clock i\<close> is what \<^verbatim>\<open>Date.now()\<close> returns for the file at index \<open>i\<close>.\<close>

definition newDocs :: "(nat \<Rightarrow> nat) \<Rightarrow> dropped_file list \<Rightarrow> document list" where
  "newDocs clock acceptedFiles =
     map (\<lambda>(i, f). \<lparr>id_doc = tempId (clock i) (name f), filename = name f,
                     size_doc = size_file f, status = ''pending''\<rparr>)
       (enumerate 0 acceptedFiles)"

text \<open>The part of \<^verbatim>\<open>onDrop\<close> before the upload is awaited; \<^term>\<open>None\<close> is the early
  return on \<^verbatim>\<open>!sessionId\<close> (no session, or an empty id).\<close>

definition onDrop_dropped :: "(nat \<Rightarrow> nat) \<Rightarrow> dropped_file list \<Rightarrow> app \<Rightarrow> app option" where
  "onDrop_dropped clock acceptedFiles st =
     (if sessionId st = None \<or> sessionId st = Some [] then None
      else Some (st\<lparr>documents := documents st @ newDocs clock acceptedFiles\<rparr>))"

definition reconcile :: "upload_response \<Rightarrow> document list \<Rightarrow> document list" where
  "reconcile response prev =
     map (\<lambda>doc. case find (\<lambda>d. filename_up d = filename doc) (documents_up response) of
                  Some matchingDoc \<Rightarrow>
                    doc\<lparr>id_doc := document_id_up matchingDoc, status := ''processing''\<rparr>
                | None \<Rightarrow> doc)
       prev"

text \<open>The part after the upload settles: the new state, and the job whose polling is
  started.\<close>

definition onDrop_settled :: "js_error + upload_response \<Rightarrow> app \<Rightarrow> app \<times> string option" where
  "onDrop_settled uploaded st =
     (case uploaded of
        Inr response \<Rightarrow>
          (st\<lparr>documents := reconcile response (documents st)\<rparr>, Some (job_id response))
      | Inl err \<Rightarrow> (st\<lparr>error := Some ''Error al subir documentos''\<rparr>, None))"

definition onDrop :: "(nat \<Rightarrow> nat) \<Rightarrow> dropped_file list \<Rightarrow> js_error + upload_response \<Rightarrow> app \<Rightarrow> app \<times> string option" where
  "onDrop clock acceptedFiles uploaded st =
     (case onDrop_dropped clock acceptedFiles st of
        None \<Rightarrow> (st, None)
      | Some st1 \<Rightarrow> onDrop_settled uploaded st1)"

definition deleteDocument :: "string \<Rightarrow> app \<Rightarrow> app" where
  "deleteDocument docId st = st\<lparr>documents := filter (\<lambda>d. id_doc d \<noteq> docId) (documents st)\<rparr>"

subsection \<open>pollProcessingStatus\<close>

definition mergeStatus :: "job_status \<Rightarrow> document list \<Rightarrow> document list" where
  "mergeStatus jobStatus prev =
     map (\<lambda>doc. case find (\<lambda>d. document_id d = id_doc doc) (documents_job jobStatus) of
                  Some matchingDoc \<Rightarrow> doc\<lparr>status := status_ds matchingDoc\<rparr>
                | None \<Rightarrow> doc)
       prev"

text \<open>What a polling loop does to the outside: a status request for a job, a timer set
  with its delay in milliseconds, an error logged.\<close>

datatype effect = GetProcessingStatus string | SetTimeout nat | ConsoleError js_error

text \<open>
  \<^verbatim>\<open>poll\<close> runs against the answers the server gives to the successive status requests
  (\<open>Inl\<close>: the request throws). Each call sends its request first; when no answer is
  left the request stays unanswered. A timer that was set fires and calls \<^verbatim>\<open>poll\<close>
  again.
\<close>

fun poll :: "string \<Rightarrow> (js_error + job_status) list \<Rightarrow> app \<Rightarrow> app \<times> effect list" where
  "poll jobId [] st = (st, [GetProcessingStatus jobId])"
| "poll jobId (Inl err # answers) st = (st, [GetProcessingStatus jobId, ConsoleError err])"
| "poll jobId (Inr jobStatus # answers) st =
     (let st1 = st\<lparr>processingStatus := Some jobStatus,
                   documents := mergeStatus jobStatus (documents st)\<rparr>
      in if status_job jobStatus \<noteq> ''completed'' \<and> status_job jobStatus \<noteq> ''failed'' then
           (case poll jobId answers st1 of
              (st2, effects) \<Rightarrow> (st2, GetProcessingStatus jobId # SetTimeout 2000 # effects))
         else (st1\<lparr>processingStatus := None\<rparr>, [GetProcessingStatus jobId]))"

definition pollProcessingStatus :: "string \<Rightarrow> (js_error + job_status) list \<Rightarrow> app \<Rightarrow> app \<times> effect list" where
  "pollProcessingStatus jobId answers st = poll jobId answers st"

subsection \<open>sendMessage\<close>

text \<open>The part of \<^verbatim>\<open>sendMessage\<close> before the chat call is awaited: \<^term>\<open>None\<close> is the
  early return; otherwise the new state and the arguments of the call.\<close>

definition sendMessage_sync :: "app \<Rightarrow> (app \<times> string \<times> string) option" where
  "sendMessage_sync st =
     (case sessionId st of
        None \<Rightarrow> None
      | Some sid \<Rightarrow>
          if trim (inputMessage st) = [] \<or> sid = [] \<or> isLoading st then None
          else
            (let userMessage = trim (inputMessage st) in
             Some (st\<lparr>inputMessage := [],
                      messages := messages st @
                        [\<lparr>role = ''user'', content = userMessage, references = None\<rparr>],
                      isLoading := True,
                      error := None\<rparr>,
                   sid, userMessage)))"

text \<open>The \<^verbatim>\<open>try\<close>, \<^verbatim>\<open>catch\<close> and \<^verbatim>\<open>finally\<close> once the call has settled.\<close>

definition sendMessage_settled :: "js_error + chat_response \<Rightarrow> app \<Rightarrow> app" where
  "sendMessage_settled settled st =
     (case settled of
        Inr response \<Rightarrow>
          st\<lparr>messages := messages st @
               [\<lparr>role = ''assistant'', content = answer response,
                 references = Some (references_resp response)\<rparr>]\<rparr>
      | Inl err \<Rightarrow> st\<lparr>error := Some ''Error al obtener respuesta''\<rparr>)
     \<lparr>isLoading := False\<rparr>"

text \<open>\<open>api sid text\<close> is how \<^verbatim>\<open>apiService.sendMessage(sessionId, userMessage)\<close> settles.\<close>

definition sendMessage :: "(string \<Rightarrow> string \<Rightarrow> js_error + chat_response) \<Rightarrow> app \<Rightarrow> app" where
  "sendMessage api st =
     (case sendMessage_sync st of
        None \<Rightarrow> st
      | Some (st1, sid, userMessage) \<Rightarrow> sendMessage_settled (api sid userMessage) st1)"

section \<open>Properties of the streaming consumer\<close>

subsection \<open>Lines of a read\<close>

lemma split_not_Nil: "split sep xs \<noteq> []"
  by (induction xs) (auto split: list.splits)

lemma split_append: "split sep (xs @ sep # ys) = split sep xs @ split sep ys"
  by (induction xs) (auto simp: split_not_Nil split: list.splits)

lemma split_no_sep: "sep \<notin> set xs \<Longrightarrow> split sep xs = [xs]"
  by (induction xs) (auto split: list.splits)

lemma split_frame:
  assumes "newline \<notin> set p"
  shows "split newline (frame p @ rest) = (''data: '' @ p) # split newline rest"
proof -
  have "newline \<notin> set (''data: '' @ p)" using assms by simp
  then have "split newline (''data: '' @ p) = [''data: '' @ p]" by (rule split_no_sep)
  then show ?thesis
    using split_append [of newline "''data: '' @ p" rest] by (simp add: frame_def)
qed

lemma processLines_append:
  "processLines parse (xs @ ys) =
     (case processLines parse xs of
        (calls, returned) \<Rightarrow>
          if returned then (calls, True)
          else (case processLines parse ys of (calls', r) \<Rightarrow> (calls @ calls', r)))"
  by (induction xs) (auto simp: Let_def split: prod.splits option.splits)

lemma processLines_blank_right: "processLines parse (ls @ [[]]) = processLines parse ls"
  by (induction ls) (auto simp: startsWith_def Let_def split: prod.splits option.splits)

subsection \<open>Reads that end at the end of a line\<close>

lemma processStream_Value_cong:
  "processStream parse X = processStream parse Y \<Longrightarrow>
   processStream parse (Value a # X) = processStream parse (Value a # Y)"
  by (simp split: prod.splits)

lemma processStream_lines_cong:
  "processLines parse (split newline a) = processLines parse (split newline b) \<Longrightarrow>
   processStream parse (Value a # X) = processStream parse (Value b # X)"
  by (simp split: prod.splits)

lemma processStream_empty_read:
  "processStream parse (Value [] # X) = processStream parse X"
  by (simp add: startsWith_def split: prod.splits)

text \<open>A read that ends with a line feed can be joined with the next read: the only line
  the join removes is the empty one after the line feed, which the loop skips.\<close>

lemma processStream_join:
  assumes "r = [] \<or> last r = newline"
  shows "processStream parse (Value r # Value r' # later) = processStream parse (Value (r @ r') # later)"
proof (cases "r = []")
  case True
  then show ?thesis by (simp only: processStream_empty_read append_Nil)
next
  case False
  with assms obtain xs where r: "r = xs @ [newline]"
    by (metis append_butlast_last_id)
  have 1: "processLines parse (split newline r) = processLines parse (split newline xs)"
    using split_append [of newline xs "[]"]
    by (simp add: r processLines_blank_right del: processLines.simps)
  have 2: "split newline (r @ r') = split newline xs @ split newline r'"
    using split_append [of newline xs r'] by (simp add: r)
  obtain c b where 3: "processLines parse (split newline xs) = (c, b)"
    by (cases "processLines parse (split newline xs)")
  obtain c' b' where 4: "processLines parse (split newline r') = (c', b')"
    by (cases "processLines parse (split newline r')")
  obtain c'' o'' where 5: "processStream parse later = (c'', o'')"
    by (cases "processStream parse later")
  show ?thesis
    by (simp add: 1 2 3 4 5 processLines_append del: processLines.simps)
qed

lemma processStream_concat:
  assumes "\<forall>r\<in>set rs. r = [] \<or> last r = newline"
  shows "processStream parse (map Value rs @ Value r # later)
       = processStream parse (Value (concat rs @ r) # later)"
  using assms
proof (induction rs)
  case Nil
  then show ?case by simp
next
  case (Cons a rs)
  then have ih: "processStream parse (map Value rs @ Value r # later)
      = processStream parse (Value (concat rs @ r) # later)"
    by simp
  have "processStream parse (map Value (a # rs) @ Value r # later)
      = processStream parse (Value a # Value (concat rs @ r) # later)"
    using processStream_Value_cong [OF ih] by simp
  also have "\<dots> = processStream parse (Value (a @ concat rs @ r) # later)"
    using Cons.prems by (intro processStream_join) simp
  finally show ?case by simp
qed

subsection \<open>Runs of the parser used below\<close>

lemma JSON_parse_a1: \<open>JSON_parse ''{"a":1}'' = Some (JObj [(''a'', JNum ''1'')])\<close>
  by code_simp

lemma JSON_parse_a2: \<open>JSON_parse ''{"a":2}'' = Some (JObj [(''a'', JNum ''2'')])\<close>
  by code_simp

lemma JSON_parse_fragment: \<open>JSON_parse ''{"a"'' = None\<close>
  by code_simp

lemma JSON_parse_oops: \<open>JSON_parse ''{oops'' = None\<close>
  by code_simp

lemma JSON_parse_one: "JSON_parse ''1'' = Some (JNum ''1'')"
  by code_simp

lemma JSON_parse_one_two: "JSON_parse ''1 2'' = None"
  by code_simp

subsection \<open>The three frames\<close>

text \<open>
  Claim C1, as the code has it. The stream carries the frames \<^verbatim>\<open>data: {"a":1}\<close>,
  \<^verbatim>\<open>data: {"a":2}\<close> and \<^verbatim>\<open>data: [DONE]\<close>, each ended by a line feed, in one or more
  reads \<open>rs @ [r]\<close>, and every read before the last one ends at the end of a line (or is
  empty). Then \<^verbatim>\<open>onChunk\<close> is called with the first parsed object, then with the second,
  then \<^verbatim>\<open>onComplete\<close> is called, and nothing else is called: whatever follows the
  sentinel in its read (\<open>extra\<close>) and whatever the later reads would give (\<open>later\<close>) is
  not looked at.
\<close>

theorem streamMessage_three_frames:
  assumes p1: \<open>parse ''{"a":1}'' = Some a1\<close>
    and p2: \<open>parse ''{"a":2}'' = Some a2\<close>
    and aligned: "\<forall>x\<in>set rs. x = [] \<or> last x = newline"
    and content: \<open>concat rs @ r = frame ''{"a":1}'' @ frame ''{"a":2}'' @ frame ''[DONE]'' @ extra\<close>
    and reads: "body resp = Some (map Value rs @ Value r # later)"
  shows "streamMessage parse (Fulfilled resp) = [OnChunk a1, OnChunk a2, OnComplete]"
proof -
  have lines: \<open>split newline (concat rs @ r) =
      [''data: {"a":1}'', ''data: {"a":2}'', ''data: [DONE]''] @ split newline extra\<close>
    unfolding content by (simp add: split_frame)
  have \<open>processLines parse (split newline (concat rs @ r))
      = ([OnChunk a1, OnChunk a2, OnComplete], True)\<close>
    unfolding lines using p1 p2 by (simp add: startsWith_def)
  then have "processStream parse (Value (concat rs @ r) # later)
      = ([OnChunk a1, OnChunk a2, OnComplete], Returned)"
    by simp
  then have "processStream parse (map Value rs @ Value r # later)
      = ([OnChunk a1, OnChunk a2, OnComplete], Returned)"
    using processStream_concat [OF aligned] by simp
  then show ?thesis
    by (simp add: streamMessage_def reads)
qed

text \<open>Witness for C1: the first frame in a read of its own, the other two together in
  the next read, with \<open>JSON_parse\<close> as the parser.\<close>

theorem streamMessage_three_frames_witness:
  \<open>JSON_parse ''{"a":1}'' = Some (JObj [(''a'', JNum ''1'')]) \<and>
   JSON_parse ''{"a":2}'' = Some (JObj [(''a'', JNum ''2'')]) \<and>
   streamMessage JSON_parse
     (Fulfilled \<lparr>ok = True, status_http = 200,
        body = Some [Value (frame ''{"a":1}''), Value (frame ''{"a":2}'' @ frame ''[DONE]''), Done],
        json_body = None\<rparr>)
   = [OnChunk (JObj [(''a'', JNum ''1'')]), OnChunk (JObj [(''a'', JNum ''2'')]), OnComplete]\<close>
proof -
  have aligned: \<open>\<forall>x\<in>set [frame ''{"a":1}'']. x = [] \<or> last x = newline\<close>
    by (simp add: frame_def)
  have content: \<open>concat [frame ''{"a":1}''] @ (frame ''{"a":2}'' @ frame ''[DONE]'')
      = frame ''{"a":1}'' @ frame ''{"a":2}'' @ frame ''[DONE]'' @ []\<close>
    by simp
  show ?thesis
    using streamMessage_three_frames [OF JSON_parse_a1 JSON_parse_a2 aligned content,
        of \<open>\<lparr>ok = True, status_http = 200,
        body = Some [Value (frame ''{"a":1}''), Value (frame ''{"a":2}'' @ frame ''[DONE]''), Done],
        json_body = None\<rparr>\<close> "[Done]"]
      JSON_parse_a1 JSON_parse_a2
    by simp
qed

text \<open>
  Counterexample to C1 as stated. The decoded content is exactly the three frames, in two
  reads, and the first read ends inside the second frame (after \<^verbatim>\<open>da\<close>). Neither
  piece of that frame starts with \<^verbatim>\<open>data: \<close>, so \<^verbatim>\<open>onChunk\<close> is never called with
  the second object.
\<close>

theorem streamMessage_three_frames_split_counterexample:
  \<open>concat [''data: {"a":1}'' @ [newline] @ ''da'',
           ''ta: {"a":2}'' @ [newline] @ ''data: [DONE]'' @ [newline]]
     = frame ''{"a":1}'' @ frame ''{"a":2}'' @ frame ''[DONE]'' \<and>
   streamMessage JSON_parse
     (Fulfilled \<lparr>ok = True, status_http = 200,
        body = Some [Value (''data: {"a":1}'' @ [newline] @ ''da''),
                     Value (''ta: {"a":2}'' @ [newline] @ ''data: [DONE]'' @ [newline]), Done],
        json_body = None\<rparr>)
   = [OnChunk (JObj [(''a'', JNum ''1'')]), OnComplete]\<close>
  using JSON_parse_a1 by (simp add: streamMessage_def frame_def startsWith_def)

subsection \<open>Order of delivery\<close>

lemma sentinel_line: "(startsWith line ''data: '' \<and> drop 6 line = ''[DONE]'') = (line = ''data: [DONE]'')"
proof
  assume a: "startsWith line ''data: '' \<and> drop 6 line = ''[DONE]''"
  then have "take 6 line = ''data: ''"
    by (simp add: startsWith_def eval_nat_numeral)
  then have "take 6 line @ drop 6 line = ''data: '' @ ''[DONE]''"
    using a by simp
  then show "line = ''data: [DONE]''" by simp
next
  assume "line = ''data: [DONE]''"
  then show "startsWith line ''data: '' \<and> drop 6 line = ''[DONE]''" by (simp add: startsWith_def)
qed

lemma deliveredChunks_Nil: "deliveredChunks parse [] = []"
  by (simp add: deliveredChunks_def List.map_filter_simps)

lemma deliveredChunks_Cons:
  "deliveredChunks parse (l # ls) =
     (if l = ''data: [DONE]'' then []
      else (case payloadOf parse l of None \<Rightarrow> deliveredChunks parse ls
            | Some v \<Rightarrow> v # deliveredChunks parse ls))"
  by (simp add: deliveredChunks_def split: option.splits)

lemma processLines_delivered:
  "processLines parse ls =
     (map OnChunk (deliveredChunks parse ls) @ (if ''data: [DONE]'' \<in> set ls then [OnComplete] else []),
      ''data: [DONE]'' \<in> set ls)"
proof (induction ls)
  case Nil
  show ?case by (simp add: deliveredChunks_Nil)
next
  case (Cons l ls)
  show ?case
  proof (cases "l = ''data: [DONE]''")
    case True
    then show ?thesis by (simp add: deliveredChunks_Cons startsWith_def)
  next
    case False
    then have ns: "\<not> (startsWith l ''data: '' \<and> drop 6 l = ''[DONE]'')"
      by (simp only: sentinel_line not_False_eq_True)
    show ?thesis
    proof (cases "startsWith l ''data: ''")
      case True
      with ns have d: "drop 6 l \<noteq> ''[DONE]''" by blast
      from False have m: "(''data: [DONE]'' \<in> set (l # ls)) = (''data: [DONE]'' \<in> set ls)" by auto
      show ?thesis
        unfolding m using True d Cons False
        by (cases "parse (drop 6 l)") (simp_all add: deliveredChunks_Cons payloadOf_def Let_def del: set_simps)
    next
      case nd: False
      from False have m: "(''data: [DONE]'' \<in> set (l # ls)) = (''data: [DONE]'' \<in> set ls)" by auto
      show ?thesis
        unfolding m using nd Cons False
        by (simp add: deliveredChunks_Cons payloadOf_def)
    qed
  qed
qed

lemma deliveredChunks_append:
  "deliveredChunks parse (xs @ ys) =
     (if ''data: [DONE]'' \<in> set xs then deliveredChunks parse xs
      else deliveredChunks parse xs @ deliveredChunks parse ys)"
  by (induction xs) (auto simp: deliveredChunks_Cons deliveredChunks_Nil split: option.splits)

lemma linesPerRead_Cons: "linesPerRead (t # ts) = split newline t @ linesPerRead ts"
  by (simp add: linesPerRead_def)

lemma streamMessage_calls:
  "(case processStream parse reads of (calls, Thrown e) \<Rightarrow> calls @ [OnError e] | (calls, _) \<Rightarrow> calls)
   = map OnChunk (deliveredChunks parse (linesPerRead (leadingTexts reads))) @
     (if ''data: [DONE]'' \<in> set (linesPerRead (leadingTexts reads)) then [OnComplete]
      else closing reads)"
proof (induction reads)
  case Nil
  show ?case by (simp add: linesPerRead_def deliveredChunks_Nil)
next
  case (Cons a reads)
  show ?case
  proof (cases a)
    case (Value t)
    obtain c out where p: "processStream parse reads = (c, out)"
      by (cases "processStream parse reads")
    show ?thesis
      using Cons p
      by (cases out)
         (simp_all add: Value linesPerRead_Cons processLines_delivered deliveredChunks_append
            del: processLines.simps)
  next
    case Done
    then show ?thesis by (simp add: linesPerRead_def deliveredChunks_Nil)
  next
    case (ReadError e)
    then show ?thesis by (simp add: linesPerRead_def deliveredChunks_Nil)
  qed
qed

text \<open>
  Claim C3, as the code has it. For every stream, the chunks are delivered in the order
  of their lines on the wire, and after them comes at most one more call: \<^verbatim>\<open>onComplete\<close>
  at the sentinel or at the end of the stream, or \<^verbatim>\<open>onError\<close> for a read that
  rejects. The lines are those of each read taken by itself (\<open>linesPerRead\<close>): no
  partial line is kept from one read to the next, so the two pieces of a line cut by a
  read boundary are two lines.
\<close>

theorem streamMessage_delivers_in_order:
  assumes "body resp = Some reads"
  shows "streamMessage parse (Fulfilled resp)
       = map OnChunk (deliveredChunks parse (linesPerRead (leadingTexts reads))) @
         (if ''data: [DONE]'' \<in> set (linesPerRead (leadingTexts reads)) then [OnComplete]
          else closing reads)"
  using streamMessage_calls [of parse reads] by (simp add: streamMessage_def assms)

text \<open>Witness for C3: two whole frames are delivered in order; the frame between
  them, cut by the read boundary, is not.\<close>

theorem streamMessage_delivers_in_order_witness:
  \<open>streamMessage JSON_parse
     (Fulfilled \<lparr>ok = True, status_http = 200,
        body = Some [Value (frame ''{"a":1}'' @ ''data: {"a"''),
                     Value ('':2}'' @ [newline] @ frame ''{"a":2}''), Done],
        json_body = None\<rparr>)
   = [OnChunk (JObj [(''a'', JNum ''1'')]), OnChunk (JObj [(''a'', JNum ''2'')]), OnComplete]\<close>
proof -
  let ?reads = \<open>[Value (frame ''{"a":1}'' @ ''data: {"a"''),
                     Value ('':2}'' @ [newline] @ frame ''{"a":2}''), Done]\<close>
  have b: \<open>body \<lparr>ok = True, status_http = 200, body = Some ?reads, json_body = None\<rparr> = Some ?reads\<close>
    by simp
  have l: \<open>linesPerRead (leadingTexts ?reads)
      = [''data: {"a":1}'', ''data: {"a"'', '':2}'', ''data: {"a":2}'', '''']\<close>
    by (simp add: linesPerRead_def frame_def)
  have d: \<open>deliveredChunks JSON_parse
        [''data: {"a":1}'', ''data: {"a"'', '':2}'', ''data: {"a":2}'', '''']
      = [JObj [(''a'', JNum ''1'')], JObj [(''a'', JNum ''2'')]]\<close>
    using JSON_parse_a1 JSON_parse_a2 JSON_parse_fragment
    by (simp add: deliveredChunks_def payloadOf_def startsWith_def)
  show ?thesis
    using streamMessage_delivers_in_order [OF b, of JSON_parse] unfolding l d by simp
qed

text \<open>
  Counterexample to C3 as stated: the frame \<^verbatim>\<open>data: {"a":1}\<close> arrives in two
  successive reads, cut inside its payload. The first piece does not parse, the second
  does not start with the event marker: \<^verbatim>\<open>onChunk\<close> is never called.
\<close>

theorem streamMessage_split_frame_counterexample:
  \<open>concat [''data: {"a"'', '':1}'' @ [newline]] = frame ''{"a":1}'' \<and>
   streamMessage JSON_parse
     (Fulfilled \<lparr>ok = True, status_http = 200,
        body = Some [Value ''data: {"a"'', Value ('':1}'' @ [newline]), Done],
        json_body = None\<rparr>)
   = [OnComplete]\<close>
  using JSON_parse_fragment by (simp add: streamMessage_def frame_def startsWith_def)

subsection \<open>Frames that do not parse\<close>

lemma processStream_prefix_cong:
  "processStream parse X = processStream parse Y \<Longrightarrow>
   processStream parse (before @ X) = processStream parse (before @ Y)"
proof (induction before)
  case Nil
  then show ?case by simp
next
  case (Cons a before)
  then show ?case by (cases a) (simp_all split: prod.splits)
qed

lemma processLines_malformed:
  assumes "parse p = None" "p \<noteq> ''[DONE]''"
  shows "processLines parse ((''data: '' @ p) # ls) = processLines parse ls"
  using assms by (simp add: startsWith_def)

lemma processLines_prefix_cong:
  "processLines parse xs = processLines parse ys \<Longrightarrow>
   processLines parse (pre @ xs) = processLines parse (pre @ ys)"
  by (simp add: processLines_append split: prod.splits del: processLines.simps)

lemma processStream_skips_frame:
  assumes bad: "parse p = None"
    and nd: "p \<noteq> ''[DONE]''"
    and line: "newline \<notin> set p"
    and start: "pre = [] \<or> last pre = newline"
  shows "processStream parse (before @ Value (pre @ frame p @ post) # after)
       = processStream parse (before @ Value (pre @ post) # after)"
proof -
  have f: "processLines parse (split newline (frame p @ post)) = processLines parse (split newline post)"
    by (simp only: split_frame [OF line] processLines_malformed [of parse p, OF bad nd])
  have "processLines parse (split newline (pre @ frame p @ post))
      = processLines parse (split newline (pre @ post))"
  proof (cases "pre = []")
    case True
    then show ?thesis using f by simp
  next
    case False
    with start obtain xs where pre: "pre = xs @ [newline]"
      by (metis append_butlast_last_id)
    have 1: "split newline (pre @ frame p @ post) = split newline xs @ split newline (frame p @ post)"
      using split_append [of newline xs "frame p @ post"] by (simp add: pre)
    have 2: "split newline (pre @ post) = split newline xs @ split newline post"
      using split_append [of newline xs post] by (simp add: pre)
    show ?thesis
      unfolding 1 2 using f by (rule processLines_prefix_cong)
  qed
  then have "processStream parse (Value (pre @ frame p @ post) # after)
      = processStream parse (Value (pre @ post) # after)"
    by (rule processStream_lines_cong)
  then show ?thesis
    by (rule processStream_prefix_cong)
qed

text \<open>
  Claim C4, as the code has it. A frame that lies within one read, at the start of a line
  (\<open>pre\<close> is empty or ends with a line feed), whose payload is not the sentinel and
  does not parse, makes no call and stops nothing. The calls of the stream are the
  payloads that parse among the lines of the stream without that frame, in order, up to
  the first sentinel, followed by the closing call of that stream; they are the calls
  the consumer makes for the stream with the frame taken out.
\<close>

theorem streamMessage_skips_malformed_frame:
  assumes bad: "parse p = None"
    and nd: "p \<noteq> ''[DONE]''"
    and line: "newline \<notin> set p"
    and start: "pre = [] \<or> last pre = newline"
    and reads: "body resp = Some (before @ Value (pre @ frame p @ post) # after)"
  shows "streamMessage parse (Fulfilled resp)
       = map OnChunk (deliveredChunks parse
           (linesPerRead (leadingTexts (before @ Value (pre @ post) # after)))) @
         (if ''data: [DONE]'' \<in> set (linesPerRead (leadingTexts (before @ Value (pre @ post) # after)))
          then [OnComplete]
          else closing (before @ Value (pre @ post) # after)) \<and>
         streamMessage parse (Fulfilled resp)
       = streamMessage parse (Fulfilled (resp\<lparr>body := Some (before @ Value (pre @ post) # after)\<rparr>))"
proof -
  let ?with = "before @ Value (pre @ frame p @ post) # after"
  let ?without = "before @ Value (pre @ post) # after"
  have same: "processStream parse ?with = processStream parse ?without"
    by (rule processStream_skips_frame [where parse = parse and p = p, OF bad nd line start])
  have "streamMessage parse (Fulfilled resp)
      = (case processStream parse ?without of
           (calls, Thrown e) \<Rightarrow> calls @ [OnError e] | (calls, _) \<Rightarrow> calls)"
    by (simp add: streamMessage_def reads same)
  then have 1: "streamMessage parse (Fulfilled resp)
      = map OnChunk (deliveredChunks parse (linesPerRead (leadingTexts ?without))) @
        (if ''data: [DONE]'' \<in> set (linesPerRead (leadingTexts ?without)) then [OnComplete]
         else closing ?without)"
    by (simp only: streamMessage_calls)
  have 2: "streamMessage parse (Fulfilled resp)
      = streamMessage parse (Fulfilled (resp\<lparr>body := Some ?without\<rparr>))"
    by (simp add: streamMessage_def reads same)
  show ?thesis using 1 2 by (rule conjI)
qed

text \<open>Witness for C4: the payload \<^verbatim>\<open>{oops\<close> between two good frames.\<close>

theorem streamMessage_skips_malformed_frame_witness:
  \<open>JSON_parse ''{oops'' = None \<and>
   streamMessage JSON_parse
     (Fulfilled \<lparr>ok = True, status_http = 200,
        body = Some [Value (frame ''{"a":1}'' @ frame ''{oops'' @ frame ''{"a":2}''), Done],
        json_body = None\<rparr>)
   = [OnChunk (JObj [(''a'', JNum ''1'')]), OnChunk (JObj [(''a'', JNum ''2'')]), OnComplete]\<close>
proof -
  let ?resp = \<open>\<lparr>ok = True, status_http = 200,
        body = Some [Value (frame ''{"a":1}'' @ frame ''{oops'' @ frame ''{"a":2}''), Done],
        json_body = None\<rparr>\<close>
  have start: \<open>frame ''{"a":1}'' = [] \<or> last (frame ''{"a":1}'') = newline\<close>
    by (simp add: frame_def)
  have nd: "''{oops'' \<noteq> ''[DONE]''" by simp
  have line: "newline \<notin> set ''{oops''" by simp
  have reads: \<open>body ?resp = Some ([] @ Value (frame ''{"a":1}'' @ frame ''{oops'' @ frame ''{"a":2}'') # [Done])\<close>
    by simp
  have l: \<open>linesPerRead (leadingTexts ([] @ Value (frame ''{"a":1}'' @ frame ''{"a":2}'') # [Done]))
      = [''data: {"a":1}'', ''data: {"a":2}'', '''']\<close>
    by (simp add: linesPerRead_def frame_def)
  have d: \<open>deliveredChunks JSON_parse [''data: {"a":1}'', ''data: {"a":2}'', '''']
      = [JObj [(''a'', JNum ''1'')], JObj [(''a'', JNum ''2'')]]\<close>
    using JSON_parse_a1 JSON_parse_a2
    by (simp add: deliveredChunks_def payloadOf_def startsWith_def)
  have c: \<open>closing ([] @ Value (frame ''{"a":1}'' @ frame ''{"a":2}'') # [Done]) = [OnComplete]\<close>
    by simp
  show ?thesis
    using streamMessage_skips_malformed_frame [where parse = JSON_parse and p = "''{oops''"
        and pre = \<open>frame ''{"a":1}''\<close> and resp = ?resp
        and before = "[]" and post = \<open>frame ''{"a":2}''\<close> and after = "[Done]",
        OF JSON_parse_oops nd line start reads]
      JSON_parse_oops
    unfolding l d c by simp
qed

text \<open>
  Counterexample to C4 as stated. The frame \<^verbatim>\<open>data: 1 2\<close>, whose payload is not
  valid JSON, arrives in two reads, cut after \<^verbatim>\<open>data: 1\<close>. The first piece is a
  line of its own with the payload \<^verbatim>\<open>1\<close>, which parses: \<^verbatim>\<open>onChunk\<close> is called
  for the frame.
\<close>

theorem streamMessage_malformed_frame_split_counterexample:
  \<open>JSON_parse ''1 2'' = None \<and>
   concat [''data: 1'', '' 2'' @ [newline]] = frame ''1 2'' \<and>
   streamMessage JSON_parse
     (Fulfilled \<lparr>ok = True, status_http = 200,
        body = Some [Value ''data: 1'', Value ('' 2'' @ [newline]), Done],
        json_body = None\<rparr>)
   = [OnChunk (JNum ''1''), OnComplete]\<close>
  using JSON_parse_one JSON_parse_one_two
  by (simp add: streamMessage_def frame_def startsWith_def)

subsection \<open>Failures of the transport\<close>

text \<open>A fetch that rejects calls \<^verbatim>\<open>onError\<close> once and nothing else; the status of a
  response that arrives is never read.\<close>

lemma streamMessage_network_error: "streamMessage parse (Rejected e) = [OnError e]"
  by (simp add: streamMessage_def)

lemma streamMessage_ignores_ok:
  "streamMessage parse (Fulfilled (r\<lparr>ok := b, status_http := n\<rparr>)) = streamMessage parse (Fulfilled r)"
  by (simp add: streamMessage_def)

text \<open>
  Claim C2 fails on the code for a response that is not ok. A response with status 500
  whose body is the JSON error document is read like a stream: no line starts with the
  event marker, the body ends, and \<^verbatim>\<open>onComplete\<close> is called; \<^verbatim>\<open>onError\<close> is not.
\<close>

theorem streamMessage_not_ok_completes:
  \<open>streamMessage parse
     (Fulfilled \<lparr>ok = False, status_http = 500,
        body = Some [Value ''{"detail":"Internal Server Error"}'', Done],
        json_body = Some (JObj [(''detail'', JStr ''Internal Server Error'')])\<rparr>)
   = [OnComplete]\<close>
  by (simp add: streamMessage_def startsWith_def)

section \<open>Properties of the transport client\<close>

lemma failure_no_body: "json_body r = None \<Longrightarrow> failure fallback r = Error fallback"
  by (simp add: failure_def errorBody_def getDetail_def)

lemma failure_detail:
  assumes "json_body r \<noteq> Some JNull"
  shows "failure fallback r =
           (case detailField r of
              None \<Rightarrow> Error fallback
            | Some d \<Rightarrow>
                if truthy d then (case ToString d of Inl e \<Rightarrow> e | Inr message \<Rightarrow> Error message)
                else Error fallback)"
proof (cases "json_body r")
  case None
  then show ?thesis by (simp add: failure_def errorBody_def getDetail_def detailField_def)
next
  case (Some v)
  with assms have "v \<noteq> JNull" by simp
  with Some show ?thesis
    by (cases v) (simp_all add: failure_def errorBody_def getDetail_def detailField_def)
qed

text \<open>
  Claim C10, as the code has it. For a response that is not ok, both \<^verbatim>\<open>request\<close> and
  \<^verbatim>\<open>uploadDocuments\<close> throw an error whose message is the \<^verbatim>\<open>detail\<close> field of the
  JSON body when the body parses to an object and the field is a non-empty string.
  When the body does not parse, or the field is absent or falsy, the message is the
  fallback: \<^verbatim>\<open>HTTP error\<close> followed by the status code for \<^verbatim>\<open>request\<close>, and the
  fixed text \<^verbatim>\<open>Upload failed\<close> for \<^verbatim>\<open>uploadDocuments\<close>. A body that parses to
  \<^verbatim>\<open>null\<close> is left out, and so is a \<^verbatim>\<open>detail\<close> that is truthy and not a string.
\<close>

theorem failure_message:
  assumes "\<not> ok r" and "json_body r \<noteq> Some JNull"
  shows "(\<forall>s. detailField r = Some (JStr s) \<and> s \<noteq> [] \<longrightarrow>
            request (Fulfilled r) = Inl (Error s) \<and>
            uploadDocuments (Fulfilled r) = Inl (Error s)) \<and>
         (detailField r = None \<or> (\<exists>d. detailField r = Some d \<and> \<not> truthy d) \<longrightarrow>
            request (Fulfilled r) = Inl (Error (''HTTP error '' @ digits10 (status_http r))) \<and>
            uploadDocuments (Fulfilled r) = Inl (Error ''Upload failed''))"
  using assms(1) by (auto simp: request_def uploadDocuments_def failure_detail [OF assms(2)])

text \<open>Witness for C10: a 404 with a \<^verbatim>\<open>detail\<close>, and a 502 whose body does not parse.\<close>

theorem failure_message_witness:
  "request (Fulfilled \<lparr>ok = False, status_http = 404, body = None,
       json_body = Some (JObj [(''detail'', JStr ''Session not found'')])\<rparr>)
     = Inl (Error ''Session not found'') \<and>
   uploadDocuments (Fulfilled \<lparr>ok = False, status_http = 404, body = None,
       json_body = Some (JObj [(''detail'', JStr ''Session not found'')])\<rparr>)
     = Inl (Error ''Session not found'') \<and>
   request (Fulfilled \<lparr>ok = False, status_http = 502, body = None, json_body = None\<rparr>)
     = Inl (Error ''HTTP error 502'') \<and>
   uploadDocuments (Fulfilled \<lparr>ok = False, status_http = 502, body = None, json_body = None\<rparr>)
     = Inl (Error ''Upload failed'')"
proof -
  let ?r = "\<lparr>ok = False, status_http = 404, body = None,
       json_body = Some (JObj [(''detail'', JStr ''Session not found'')])\<rparr>"
  let ?q = "\<lparr>ok = False, status_http = 502, body = None, json_body = None :: json option\<rparr>"
  have r1: "\<not> ok ?r" and r2: "json_body ?r \<noteq> Some JNull" by simp_all
  have q1: "\<not> ok ?q" and q2: "json_body ?q \<noteq> Some JNull" by simp_all
  have dr: "detailField ?r = Some (JStr ''Session not found'')" by (simp add: detailField_def)
  have dq: "detailField ?q = None" by (simp add: detailField_def)
  have d502: "digits10 502 = ''502''" by (simp add: digitChar_def digits10.simps)
  show ?thesis
    using failure_message [OF r1 r2] failure_message [OF q1 q2] dr dq d502
    by simp
qed

text \<open>
  Counterexample to C10 as stated. Without a \<^verbatim>\<open>detail\<close>, \<^verbatim>\<open>uploadDocuments\<close> gives
  the same message for status 500 and status 404, with no status in it; and a
  \<^verbatim>\<open>detail\<close> that is present and empty is not the message of \<^verbatim>\<open>request\<close>.
\<close>

theorem failure_message_counterexample:
  "uploadDocuments (Fulfilled \<lparr>ok = False, status_http = 500, body = None, json_body = Some (JObj [])\<rparr>)
     = Inl (Error ''Upload failed'') \<and>
   uploadDocuments (Fulfilled \<lparr>ok = False, status_http = 404, body = None, json_body = Some (JObj [])\<rparr>)
     = Inl (Error ''Upload failed'') \<and>
   request (Fulfilled \<lparr>ok = False, status_http = 422, body = None,
       json_body = Some (JObj [(''detail'', JStr [])])\<rparr>)
     = Inl (Error ''HTTP error 422'')"
  by (simp add: uploadDocuments_def request_def failure_def errorBody_def getDetail_def digitChar_def digits10.simps)

text \<open>A body that parses to \<^verbatim>\<open>null\<close>: reading \<^verbatim>\<open>error.detail\<close> throws, and that
  error is what the caller sees.\<close>

lemma request_null_body:
  "request (Fulfilled \<lparr>ok = False, status_http = 500, body = None, json_body = Some JNull\<rparr>) = Inl TypeError"
  by (simp add: request_def failure_def errorBody_def getDetail_def)

text \<open>A \<^verbatim>\<open>detail\<close> that is not a string: a number that rounds to zero gives the
  fallback, another number its printed text, an object with a member \<^verbatim>\<open>toString\<close> a
  TypeError.\<close>

lemma request_number_detail:
  "request (Fulfilled \<lparr>ok = False, status_http = 400, body = None,
       json_body = Some (JObj [(''detail'', JNum ''0'')])\<rparr>) = Inl (Error ''HTTP error 400'') \<and>
   request (Fulfilled \<lparr>ok = False, status_http = 400, body = None,
       json_body = Some (JObj [(''detail'', JNum ''12345678901234567000'')])\<rparr>)
     = Inl (Error ''12345678901234567000'')"
  by (simp add: request_def failure_def errorBody_def getDetail_def isZeroLiteral_def
      digitChar_def digits10.simps)

lemma request_object_detail:
  "request (Fulfilled \<lparr>ok = False, status_http = 400, body = None,
       json_body = Some (JObj [(''detail'', JObj [(''toString'', JNum ''1'')])])\<rparr>) = Inl TypeError \<and>
   request (Fulfilled \<lparr>ok = False, status_http = 400, body = None,
       json_body = Some (JObj [(''detail'', JArr [JObj [(''loc'', JStr ''body'')], JNull, JNum ''1''])])\<rparr>)
     = Inl (Error ''[object Object],,1'')"
  by (simp add: request_def failure_def errorBody_def getDetail_def isZeroLiteral_def)

section \<open>Properties of the orchestrators\<close>

subsection \<open>The merge of a poll response\<close>

lemma find_document_id:
  "find (\<lambda>d. document_id d = k) ds = None \<longleftrightarrow> k \<notin> document_id ` set ds"
  by (auto simp: find_None_iff)

text \<open>
  Claim C9. The merge keeps the number of documents and their ids. A document whose id
  is no \<^verbatim>\<open>document_id\<close> of the response is unchanged. A document whose id is one gets
  the status of the entry that \<^verbatim>\<open>find\<close> returns for it (the first with that
  \<^verbatim>\<open>document_id\<close>) and keeps its other fields.
\<close>

theorem mergeStatus_frame:
  "length (mergeStatus jobStatus docs) = length docs \<and>
   map id_doc (mergeStatus jobStatus docs) = map id_doc docs \<and>
   (\<forall>i<length docs.
      (id_doc (docs ! i) \<notin> document_id ` set (documents_job jobStatus) \<longrightarrow>
         mergeStatus jobStatus docs ! i = docs ! i) \<and>
      (id_doc (docs ! i) \<in> document_id ` set (documents_job jobStatus) \<longrightarrow>
         (\<exists>m. find (\<lambda>d. document_id d = id_doc (docs ! i)) (documents_job jobStatus) = Some m \<and>
              m \<in> set (documents_job jobStatus) \<and> document_id m = id_doc (docs ! i) \<and>
              mergeStatus jobStatus docs ! i = (docs ! i)\<lparr>status := status_ds m\<rparr>)))"
proof -
  have 1: "length (mergeStatus jobStatus docs) = length docs"
    by (simp add: mergeStatus_def)
  have 2: "map id_doc (mergeStatus jobStatus docs) = map id_doc docs"
    by (simp add: mergeStatus_def comp_def split: option.splits cong: map_cong)
  have 3: "mergeStatus jobStatus docs ! i = docs ! i"
    if "i < length docs" "id_doc (docs ! i) \<notin> document_id ` set (documents_job jobStatus)" for i
    using that find_document_id [of "id_doc (docs ! i)" "documents_job jobStatus"]
    by (simp add: mergeStatus_def)
  have 4: "\<exists>m. find (\<lambda>d. document_id d = id_doc (docs ! i)) (documents_job jobStatus) = Some m \<and>
              m \<in> set (documents_job jobStatus) \<and> document_id m = id_doc (docs ! i) \<and>
              mergeStatus jobStatus docs ! i = (docs ! i)\<lparr>status := status_ds m\<rparr>"
    if "i < length docs" "id_doc (docs ! i) \<in> document_id ` set (documents_job jobStatus)" for i
  proof -
    from that(2) obtain m where m: "find (\<lambda>d. document_id d = id_doc (docs ! i)) (documents_job jobStatus) = Some m"
      using find_document_id [of "id_doc (docs ! i)" "documents_job jobStatus"] by auto
    then have "m \<in> set (documents_job jobStatus) \<and> document_id m = id_doc (docs ! i)"
      by (auto simp: find_Some_iff)
    moreover have "mergeStatus jobStatus docs ! i = (docs ! i)\<lparr>status := status_ds m\<rparr>"
      using that(1) m by (simp add: mergeStatus_def)
    ultimately show ?thesis using m by blast
  qed
  show ?thesis using 1 2 3 4 by blast
qed

text \<open>Witness for C9: the example of the specification, with a second document that
  the response does not name.\<close>

theorem mergeStatus_frame_witness:
  "mergeStatus \<lparr>status_job = ''processing'',
                documents_job = [\<lparr>document_id = ''x'', status_ds = ''completed''\<rparr>]\<rparr>
     [\<lparr>id_doc = ''x'', filename = ''a.pdf'', size_doc = 10, status = ''processing''\<rparr>,
      \<lparr>id_doc = ''y'', filename = ''b.pdf'', size_doc = 20, status = ''pending''\<rparr>]
   = [\<lparr>id_doc = ''x'', filename = ''a.pdf'', size_doc = 10, status = ''completed''\<rparr>,
      \<lparr>id_doc = ''y'', filename = ''b.pdf'', size_doc = 20, status = ''pending''\<rparr>]"
proof -
  let ?js = "\<lparr>status_job = ''processing'',
                documents_job = [\<lparr>document_id = ''x'', status_ds = ''completed''\<rparr>]\<rparr>"
  let ?docs = "[\<lparr>id_doc = ''x'', filename = ''a.pdf'', size_doc = 10, status = ''processing''\<rparr>,
      \<lparr>id_doc = ''y'', filename = ''b.pdf'', size_doc = 20, status = ''pending''\<rparr>]"
  show ?thesis
    using mergeStatus_frame [of ?js ?docs] by (simp add: mergeStatus_def)
qed

subsection \<open>The polling loop\<close>

lemma poll_pending_step:
  assumes "status_job s \<noteq> ''completed''" "status_job s \<noteq> ''failed''"
  shows "snd (poll jobId (Inr s # answers) st) =
           GetProcessingStatus jobId # SetTimeout 2000 #
           snd (poll jobId answers (st\<lparr>processingStatus := Some s, documents := mergeStatus s (documents st)\<rparr>))"
  using assms by (simp add: Let_def split: prod.splits)

lemma poll_pending_prefix:
  assumes "\<forall>s\<in>set pending. status_job s \<noteq> ''completed'' \<and> status_job s \<noteq> ''failed''"
  shows "\<exists>st'. snd (poll jobId (map Inr pending @ answers) st) =
           concat (replicate (length pending) [GetProcessingStatus jobId, SetTimeout 2000]) @
           snd (poll jobId answers st')"
  using assms
proof (induction pending arbitrary: st)
  case Nil
  then show ?case by auto
next
  case (Cons s pending)
  let ?st1 = "st\<lparr>processingStatus := Some s, documents := mergeStatus s (documents st)\<rparr>"
  from Cons.prems have s: "status_job s \<noteq> ''completed''" "status_job s \<noteq> ''failed''"
    and rest: "\<forall>s\<in>set pending. status_job s \<noteq> ''completed'' \<and> status_job s \<noteq> ''failed''"
    by auto
  from Cons.IH [OF rest, of ?st1] obtain st' where
    ih: "snd (poll jobId (map Inr pending @ answers) ?st1) =
           concat (replicate (length pending) [GetProcessingStatus jobId, SetTimeout 2000]) @
           snd (poll jobId answers st')"
    by blast
  have "snd (poll jobId (map Inr (s # pending) @ answers) st) =
          GetProcessingStatus jobId # SetTimeout 2000 # snd (poll jobId (map Inr pending @ answers) ?st1)"
    using poll_pending_step [OF s] by simp
  then show ?case using ih by auto
qed

text \<open>
  Claim C8. Let the first answers be of jobs neither \<^verbatim>\<open>completed\<close> nor \<^verbatim>\<open>failed\<close>.
  Each of them is one status request followed by a timer of 2000 ms. If the next answer
  is terminal, one more request is sent and nothing follows it, whatever answers would
  come; if the next request throws, the error is logged after it and no timer is set;
  if no answer is left, the last request stays open.
\<close>

theorem pollProcessingStatus_requests:
  assumes "\<forall>s\<in>set pending. status_job s \<noteq> ''completed'' \<and> status_job s \<noteq> ''failed''"
  shows "(status_job final = ''completed'' \<or> status_job final = ''failed'' \<longrightarrow>
            snd (pollProcessingStatus jobId (map Inr pending @ Inr final # answers) st) =
              concat (replicate (length pending) [GetProcessingStatus jobId, SetTimeout 2000]) @
              [GetProcessingStatus jobId]) \<and>
         snd (pollProcessingStatus jobId (map Inr pending @ Inl err # answers) st) =
              concat (replicate (length pending) [GetProcessingStatus jobId, SetTimeout 2000]) @
              [GetProcessingStatus jobId, ConsoleError err] \<and>
         snd (pollProcessingStatus jobId (map Inr pending) st) =
              concat (replicate (length pending) [GetProcessingStatus jobId, SetTimeout 2000]) @
              [GetProcessingStatus jobId]"
proof -
  have a: "snd (poll jobId (Inr final # answers) st') = [GetProcessingStatus jobId]"
    if "status_job final = ''completed'' \<or> status_job final = ''failed''" for st'
    using that by (auto simp: Let_def)
  have b: "snd (poll jobId (Inl err # answers) st') = [GetProcessingStatus jobId, ConsoleError err]" for st'
    by simp
  have c: "snd (poll jobId [] st') = [GetProcessingStatus jobId]" for st'
    by simp
  show ?thesis
    unfolding pollProcessingStatus_def
    using poll_pending_prefix [OF assms, of jobId "Inr final # answers" st]
      poll_pending_prefix [OF assms, of jobId "Inl err # answers" st]
      poll_pending_prefix [OF assms, of jobId "[]" st] a b c
    by auto
qed

text \<open>Witness for C8: one answer \<^verbatim>\<open>processing\<close>, then \<^verbatim>\<open>completed\<close>, or then a
  request that throws.\<close>

theorem pollProcessingStatus_requests_witness:
  "snd (pollProcessingStatus ''j1''
          [Inr \<lparr>status_job = ''processing'', documents_job = []\<rparr>,
           Inr \<lparr>status_job = ''completed'', documents_job = []\<rparr>,
           Inr \<lparr>status_job = ''completed'', documents_job = []\<rparr>] initialState)
     = [GetProcessingStatus ''j1'', SetTimeout 2000, GetProcessingStatus ''j1''] \<and>
   snd (pollProcessingStatus ''j1''
          [Inr \<lparr>status_job = ''processing'', documents_job = []\<rparr>,
           Inl TypeError,
           Inr \<lparr>status_job = ''completed'', documents_job = []\<rparr>] initialState)
     = [GetProcessingStatus ''j1'', SetTimeout 2000, GetProcessingStatus ''j1'', ConsoleError TypeError]"
proof -
  have h: "\<forall>s\<in>set [\<lparr>status_job = ''processing'', documents_job = []\<rparr>].
             status_job s \<noteq> ''completed'' \<and> status_job s \<noteq> ''failed''"
    by simp
  show ?thesis
    using pollProcessingStatus_requests [OF h,
        of "\<lparr>status_job = ''completed'', documents_job = []\<rparr>" "''j1''"
           "[Inr \<lparr>status_job = ''completed'', documents_job = []\<rparr>]" initialState TypeError]
    by simp
qed

subsection \<open>sendMessage\<close>

lemma trim_hi: "trim ''  hi '' = ''hi''"
  by (simp add: trim_def isWhiteSpace_def)

text \<open>
  Claim C6. With an input whose trimmed text is not empty, a session and no send in
  flight, a send whose chat call succeeds leaves the history equal to the former one
  followed by the user message (the trimmed text) and the assistant message (the answer
  and the references of the response); the user message is already in the state that
  holds when the call is made.
\<close>

theorem sendMessage_success_history:
  assumes "trim (inputMessage st) \<noteq> []"
    and "sessionId st = Some sid" and "sid \<noteq> []"
    and "\<not> isLoading st"
    and "api sid (trim (inputMessage st)) = Inr response"
  shows "messages (sendMessage api st) =
           messages st @
             [\<lparr>role = ''user'', content = trim (inputMessage st), references = None\<rparr>,
              \<lparr>role = ''assistant'', content = answer response,
                references = Some (references_resp response)\<rparr>] \<and>
         (\<exists>st1. sendMessage_sync st = Some (st1, sid, trim (inputMessage st)) \<and>
                messages st1 = messages st @
                  [\<lparr>role = ''user'', content = trim (inputMessage st), references = None\<rparr>])"
  using assms by (simp add: sendMessage_def sendMessage_sync_def sendMessage_settled_def Let_def)

text \<open>Witness for C6: the input \<^verbatim>\<open>"  hi "\<close> in a fresh session.\<close>

theorem sendMessage_success_history_witness:
  "messages (sendMessage (\<lambda>sid text. Inr \<lparr>answer = ''hello'', references_resp = [\<lparr>document_name = ''a.pdf'', page_number = 3\<rparr>]\<rparr>) (initialState\<lparr>sessionId := Some ''s1'', inputMessage := ''  hi ''\<rparr>))
     = [\<lparr>role = ''user'', content = ''hi'', references = None\<rparr>,
        \<lparr>role = ''assistant'', content = ''hello'',
          references = Some [\<lparr>document_name = ''a.pdf'', page_number = 3\<rparr>]\<rparr>]"
proof -
  have 1: "trim (inputMessage (initialState\<lparr>sessionId := Some ''s1'', inputMessage := ''  hi ''\<rparr>)) \<noteq> []" by (simp add: initialState_def trim_hi)
  have 2: "sessionId (initialState\<lparr>sessionId := Some ''s1'', inputMessage := ''  hi ''\<rparr>) = Some ''s1''" by (simp add: initialState_def)
  have 3: "''s1'' \<noteq> []" by simp
  have 4: "\<not> isLoading (initialState\<lparr>sessionId := Some ''s1'', inputMessage := ''  hi ''\<rparr>)" by (simp add: initialState_def)
  have 5: "(\<lambda>sid text. Inr \<lparr>answer = ''hello'', references_resp = [\<lparr>document_name = ''a.pdf'', page_number = 3\<rparr>]\<rparr>)
             ''s1'' (trim (inputMessage (initialState\<lparr>sessionId := Some ''s1'', inputMessage := ''  hi ''\<rparr>)))
           = (Inr \<lparr>answer = ''hello'', references_resp = [\<lparr>document_name = ''a.pdf'', page_number = 3\<rparr>]\<rparr> :: js_error + chat_response)"
    by simp
  show ?thesis
    using sendMessage_success_history [OF 1 2 3 4 5] by (simp add: initialState_def trim_hi)
qed

text \<open>
  Claim C7. Under the same guard, when the chat call fails the error state is set, the
  history is the former one followed by the user message only, and in every case,
  failure or success, the loading flag is false at the end.
\<close>

theorem sendMessage_failure_state:
  assumes "trim (inputMessage st) \<noteq> []"
    and "sessionId st = Some sid" and "sid \<noteq> []"
    and "\<not> isLoading st"
  shows "(api sid (trim (inputMessage st)) = Inl err \<longrightarrow>
            error (sendMessage api st) = Some ''Error al obtener respuesta'' \<and>
            messages (sendMessage api st) =
              messages st @ [\<lparr>role = ''user'', content = trim (inputMessage st), references = None\<rparr>]) \<and>
         \<not> isLoading (sendMessage api st)"
  using assms
  by (cases "api sid (trim (inputMessage st))")
     (simp_all add: sendMessage_def sendMessage_sync_def sendMessage_settled_def Let_def)

text \<open>Witness for C7: the chat call fails with an HTTP error.\<close>

theorem sendMessage_failure_state_witness:
  "error (sendMessage (\<lambda>sid text. Inl (Error ''HTTP error 500'')) (initialState\<lparr>sessionId := Some ''s1'', inputMessage := ''  hi ''\<rparr>)) = Some ''Error al obtener respuesta'' \<and>
   messages (sendMessage (\<lambda>sid text. Inl (Error ''HTTP error 500'')) (initialState\<lparr>sessionId := Some ''s1'', inputMessage := ''  hi ''\<rparr>))
     = [\<lparr>role = ''user'', content = ''hi'', references = None\<rparr>] \<and>
   \<not> isLoading (sendMessage (\<lambda>sid text. Inl (Error ''HTTP error 500'')) (initialState\<lparr>sessionId := Some ''s1'', inputMessage := ''  hi ''\<rparr>))"
proof -
  have 1: "trim (inputMessage (initialState\<lparr>sessionId := Some ''s1'', inputMessage := ''  hi ''\<rparr>)) \<noteq> []" by (simp add: initialState_def trim_hi)
  have 2: "sessionId (initialState\<lparr>sessionId := Some ''s1'', inputMessage := ''  hi ''\<rparr>) = Some ''s1''" by (simp add: initialState_def)
  have 3: "''s1'' \<noteq> []" by simp
  have 4: "\<not> isLoading (initialState\<lparr>sessionId := Some ''s1'', inputMessage := ''  hi ''\<rparr>)" by (simp add: initialState_def)
  show ?thesis
    using sendMessage_failure_state [OF 1 2 3 4,
        of "\<lambda>sid text. Inl (Error ''HTTP error 500'')" "Error ''HTTP error 500''"]
    by (simp add: initialState_def trim_hi)
qed

subsection \<open>Document ids after an upload\<close>

text \<open>
  Claim C5 fails on the code. The file \<^verbatim>\<open>a.pdf\<close> is dropped and uploaded, and later
  dropped and uploaded again. The second response is matched by filename against every
  local document, so the document of the first upload takes the new id as well: the
  list holds two documents with the id \<^verbatim>\<open>d2\<close>.
\<close>

theorem onDrop_same_filename_twice:
  "map id_doc (documents (fst (
      onDrop (\<lambda>i. 1730000060000) [\<lparr>name = ''a.pdf'', size_file = 1024\<rparr>]
        (Inr \<lparr>job_id = ''j2'', documents_up = [\<lparr>filename_up = ''a.pdf'', document_id_up = ''d2''\<rparr>]\<rparr>)
        (fst (onDrop (\<lambda>i. 1730000000000) [\<lparr>name = ''a.pdf'', size_file = 1024\<rparr>]
                (Inr \<lparr>job_id = ''j1'', documents_up = [\<lparr>filename_up = ''a.pdf'', document_id_up = ''d1''\<rparr>]\<rparr>)
                (initialState\<lparr>sessionId := Some ''s1''\<rparr>))))))
   = [''d2'', ''d2'']"
  by (simp add: onDrop_def onDrop_dropped_def onDrop_settled_def reconcile_def newDocs_def
      initialState_def tempId_def)

text \<open>Two files of the same name in one drop both take the id of the first entry of
  that name in the response.\<close>

lemma onDrop_two_files_same_name:
  "map id_doc (documents (fst (
      onDrop (\<lambda>i. 1730000000000 + i) [\<lparr>name = ''a.pdf'', size_file = 1024\<rparr>, \<lparr>name = ''a.pdf'', size_file = 2048\<rparr>]
        (Inr \<lparr>job_id = ''j1'', documents_up = [\<lparr>filename_up = ''a.pdf'', document_id_up = ''d1''\<rparr>,
                                               \<lparr>filename_up = ''a.pdf'', document_id_up = ''d2''\<rparr>]\<rparr>)
        (initialState\<lparr>sessionId := Some ''s1''\<rparr>))))
   = [''d1'', ''d1'']"
  by (simp add: onDrop_def onDrop_dropped_def onDrop_settled_def reconcile_def newDocs_def
      initialState_def tempId_def)

end
